theory Spec2Isabelle
  imports Main
begin

section \<open>The state machine library of src/state-machine.ts\<close>

text \<open>
  The embedding follows the module \<^verbatim>\<open>StateMachine\<close> function by function and keeps its
  names. What it fixes about JavaScript:
  \<^item> an object used as a dictionary (\<^verbatim>\<open>map\<close>, \<^verbatim>\<open>map[e.name]\<close>, \<^verbatim>\<open>transitions\<close>, the
    callbacks) is a partial function on strings holding the object's own properties.
    What such an object inherits from \<^verbatim>\<open>Object.prototype\<close> belongs to the JavaScript
    engine and not to the source: it is a parameter, the table \<open>cfg_inherited\<close>, read
    where line 77 looks up a name that was never registered. Everywhere else the tables
    are read and written under event and state names, which are taken not to be
    inherited names; \<open>well_named\<close> says so of a configuration;
  \<^item> the machine object \<^verbatim>\<open>fsm\<close> is split in two: what never changes after \<^verbatim>\<open>create\<close>
    (the two tables, the hooks found under their \<^verbatim>\<open>on...\<close> names, the error handler) is the
    record \<open>fsm\<close>; the two mutable fields \<^verbatim>\<open>fsm.current\<close> and \<^verbatim>\<open>fsm.transition\<close> are the
    record \<open>machine\<close>. The source keeps event functions, callbacks and the fixed members
    as properties of one object (lines 65 to 81, \<open>member_of\<close> below), where a later
    assignment replaces an earlier one. The split is right for the configurations
    \<open>well_named\<close> describes, in which no two of them meet under one name; \<open>create\<close>
    gives no answer for any other configuration. The host object is a fresh one;
  \<^item> a callback is a function of the arguments it is applied to (event name, source,
    destination, caller arguments) that returns a value or throws one. A callback that
    itself assigns \<^verbatim>\<open>fsm.current\<close>, calls \<^verbatim>\<open>fsm.transition()\<close> or fires an event is
    outside the model; the same holds for a caller-supplied error handler;
  \<^item> the field \<open>log\<close> of \<open>machine\<close> is not in the source: it records, in order, each
    callback invocation (with the lifecycle point it was made at and the property name
    the hook was found under) and each call of the error handler, so that statements
    about which hooks ran can be written down;
  \<^item> \<^verbatim>\<open>is\<close>, \<^verbatim>\<open>isFinished\<close> and the terminal state play no part below and are left out.
\<close>

subsection \<open>Values\<close>

datatype jsval = Undefined | Null | Bool bool | Num int | Str string | TypeError

text \<open>JavaScript truthiness, as used by \<^verbatim>\<open>||\<close> and \<^verbatim>\<open>if\<close>.\<close>

fun truthy :: "jsval \<Rightarrow> bool" where
  "truthy Undefined = False"
| "truthy Null = False"
| "truthy (Bool b) = b"
| "truthy (Num n) = (n \<noteq> 0)"
| "truthy (Str s) = (s \<noteq> [])"
| "truthy TypeError = True"

text \<open>A call either returns a value or throws one.\<close>

datatype 'a res = Returns 'a | Throws jsval

text \<open>\<^verbatim>\<open>StateMachine.Result\<close>, \<^verbatim>\<open>StateMachine.Error\<close>, \<^verbatim>\<open>WILDCARD\<close> and \<^verbatim>\<open>ASYNC\<close>.\<close>

definition SUCCEEDED :: jsval where "SUCCEEDED = Num 1"
definition NOTRANSITION :: jsval where "NOTRANSITION = Num 2"
definition CANCELLED :: jsval where "CANCELLED = Num 3"
definition PENDING :: jsval where "PENDING = Num 4"

definition INVALID_TRANSITION :: int where "INVALID_TRANSITION = 100"
definition PENDING_TRANSITION :: int where "PENDING_TRANSITION = 200"
definition INVALID_CALLBACK :: int where "INVALID_CALLBACK = 300"

definition WILDCARD :: string where "WILDCARD = ''*''"
definition ASYNC :: jsval where "ASYNC = Str ''async''"

subsection \<open>Configuration\<close>

text \<open>
  The \<^verbatim>\<open>from\<close> member of an event specification: missing, one name, or an array.
  The \<^verbatim>\<open>to\<close> member is a name or missing.
\<close>

datatype from_spec = FromOmitted | FromOne string | FromMany "string list"

record event_spec =
  e_name :: string
  e_from :: from_spec
  e_to :: "string option"

text \<open>The transition context every hook of one firing is applied to.\<close>

record ctx =
  c_name :: string
  c_from :: string
  c_to :: string
  c_args :: "jsval list"

type_synonym hook = "ctx \<Rightarrow> jsval res"

text \<open>The seven arguments of \<^verbatim>\<open>fsm.error\<close>.\<close>

record error_call =
  r_ctx :: ctx
  r_error :: int
  r_msg :: string
  r_e :: jsval

type_synonym handler = "error_call \<Rightarrow> jsval res"

text \<open>
  \<^verbatim>\<open>cfg.initial\<close> after line 38: an object with \<^verbatim>\<open>state\<close>, an optional \<^verbatim>\<open>event\<close> and
  \<^verbatim>\<open>defer\<close>; a plain string \<open>s\<close> is the descriptor with state \<open>s\<close> and nothing else.
\<close>

record initial_spec =
  i_state :: string
  i_event :: "string option"
  i_defer :: bool

text \<open>
  The argument of \<^verbatim>\<open>create\<close>, and with it the table of the engine: \<open>cfg_inherited\<close> lists
  the property names under which a plain object \<^verbatim>\<open>{}\<close> inherits a value other than
  undefined and null, each with the test \<^verbatim>\<open>hasOwnProperty\<close> answers on that value.
\<close>

record config =
  cfg_initial :: "initial_spec option"
  cfg_events :: "event_spec list"
  cfg_callbacks :: "string \<rightharpoonup> hook"
  cfg_error :: "handler option"
  cfg_inherited :: "(string \<times> (string \<Rightarrow> bool)) list"

subsection \<open>The two tables and \<^verbatim>\<open>add\<close>\<close>

record tables =
  t_map :: "string \<rightharpoonup> (string \<rightharpoonup> string)"
  t_transitions :: "string \<rightharpoonup> string list"

text \<open>Line 47: the list of source names of a specification.\<close>

fun from_list :: "from_spec \<Rightarrow> string list" where
  "from_list (FromMany xs) = xs"
| "from_list (FromOne s) = (if s \<noteq> [] then [s] else [WILDCARD])"
| "from_list FromOmitted = [WILDCARD]"

text \<open>\<^verbatim>\<open>e.to || from[n]\<close>: a missing or empty \<^verbatim>\<open>to\<close> is falsy.\<close>

definition to_or :: "string option \<Rightarrow> string \<Rightarrow> string" where
  "to_or t f = (case t of Some s \<Rightarrow> (if s \<noteq> [] then s else f) | None \<Rightarrow> f)"

text \<open>One round of the loop of lines 49 to 54.\<close>

definition add_step :: "string \<Rightarrow> string option \<Rightarrow> string \<Rightarrow> tables \<Rightarrow> tables" where
  "add_step nm t f T =
     \<lparr> t_map = (t_map T)(nm \<mapsto>
         (case t_map T nm of Some em \<Rightarrow> em | None \<Rightarrow> Map.empty)(f \<mapsto> to_or t f)),
       t_transitions = (t_transitions T)(f \<mapsto>
         (case t_transitions T f of Some es \<Rightarrow> es | None \<Rightarrow> []) @ [nm]) \<rparr>"

primrec add_loop :: "string \<Rightarrow> string option \<Rightarrow> string list \<Rightarrow> tables \<Rightarrow> tables" where
  "add_loop nm t [] T = T"
| "add_loop nm t (f # fs) T = add_loop nm t fs (add_step nm t f T)"

definition add :: "event_spec \<Rightarrow> tables \<Rightarrow> tables" where
  "add e T =
     add_loop (e_name e) (e_to e) (from_list (e_from e))
       (T\<lparr> t_map := (t_map T)(e_name e \<mapsto>
              (case t_map T (e_name e) of Some em \<Rightarrow> em | None \<Rightarrow> Map.empty)) \<rparr>)"

text \<open>Lines 62 and 63.\<close>

primrec add_events :: "event_spec list \<Rightarrow> tables \<Rightarrow> tables" where
  "add_events [] T = T"
| "add_events (e # es) T = add_events es (add e T)"

subsection \<open>The machine\<close>

datatype point =
  PBeforeThis | PBeforeAny | PLeaveThis | PLeaveAny | PEnterThis | PEnterAny
  | PChange | PAfterThis | PAfterAny

datatype entry = Called point string ctx | Reported int ctx

text \<open>
  \<open>transition\<close> is \<^verbatim>\<open>fsm.transition\<close>: \<open>None\<close> when it is undefined or null, otherwise the
  variables the closure of lines 164 to 175 has captured.
\<close>

record machine =
  current :: string
  transition :: "ctx option"
  log :: "entry list"

record fsm =
  f_map :: "string \<rightharpoonup> (string \<rightharpoonup> string)"
  f_transitions :: "string \<rightharpoonup> string list"
  f_callbacks :: "string \<rightharpoonup> hook"
  f_error :: handler
  f_inherited :: "(string \<times> (string \<Rightarrow> bool)) list"

text \<open>Line 81, the default handler: \<^verbatim>\<open>throw e || msg\<close>.\<close>

definition default_error :: handler where
  "default_error r = Throws (if truthy (r_e r) then r_e r else Str (r_msg r))"

text \<open>A call \<^verbatim>\<open>fsm.error(name, from, to, args, error, msg, e)\<close>.\<close>

definition call_error :: "fsm \<Rightarrow> ctx \<Rightarrow> int \<Rightarrow> string \<Rightarrow> jsval \<Rightarrow> machine \<Rightarrow> jsval res \<times> machine" where
  "call_error F c code msg e m =
     (f_error F \<lparr> r_ctx = c, r_error = code, r_msg = msg, r_e = e \<rparr>,
      m\<lparr> log := log m @ [Reported code c] \<rparr>)"

subsection \<open>Hook resolution and \<^verbatim>\<open>doCallback\<close>\<close>

text \<open>\<^verbatim>\<open>fsm[k]\<close> for a hook name, kept with its name; \<^verbatim>\<open>a || b\<close> on two such reads.\<close>

definition hook_at :: "fsm \<Rightarrow> string \<Rightarrow> (string \<times> hook) option" where
  "hook_at F k = (case f_callbacks F k of Some h \<Rightarrow> Some (k, h) | None \<Rightarrow> None)"

definition orelse :: "'a option \<Rightarrow> 'a option \<Rightarrow> 'a option" where
  "orelse a b = (case a of Some x \<Rightarrow> Some x | None \<Rightarrow> b)"

definition doCallback ::
  "fsm \<Rightarrow> point \<Rightarrow> (string \<times> hook) option \<Rightarrow> ctx \<Rightarrow> machine \<Rightarrow> jsval res \<times> machine" where
  "doCallback F pt func c m =
     (case func of
        None \<Rightarrow> (Returns Undefined, m)
      | Some (k, h) \<Rightarrow>
          (let m1 = m\<lparr> log := log m @ [Called pt k c] \<rparr> in
           case h c of
             Returns v \<Rightarrow> (Returns v, m1)
           | Throws e \<Rightarrow>
               call_error F c INVALID_CALLBACK
                 ''an exception occurred in a caller-provided callback function'' e m1))"

definition beforeAnyEvent :: "fsm \<Rightarrow> ctx \<Rightarrow> machine \<Rightarrow> jsval res \<times> machine" where
  "beforeAnyEvent F c m = doCallback F PBeforeAny (hook_at F ''onbeforeevent'') c m"

definition afterAnyEvent :: "fsm \<Rightarrow> ctx \<Rightarrow> machine \<Rightarrow> jsval res \<times> machine" where
  "afterAnyEvent F c m =
     doCallback F PAfterAny (orelse (hook_at F ''onafterevent'') (hook_at F ''onevent'')) c m"

definition leaveAnyState :: "fsm \<Rightarrow> ctx \<Rightarrow> machine \<Rightarrow> jsval res \<times> machine" where
  "leaveAnyState F c m = doCallback F PLeaveAny (hook_at F ''onleavestate'') c m"

definition enterAnyState :: "fsm \<Rightarrow> ctx \<Rightarrow> machine \<Rightarrow> jsval res \<times> machine" where
  "enterAnyState F c m =
     doCallback F PEnterAny (orelse (hook_at F ''onenterstate'') (hook_at F ''onstate'')) c m"

definition changeState :: "fsm \<Rightarrow> ctx \<Rightarrow> machine \<Rightarrow> jsval res \<times> machine" where
  "changeState F c m = doCallback F PChange (hook_at F ''onchangestate'') c m"

definition beforeThisEvent :: "fsm \<Rightarrow> ctx \<Rightarrow> machine \<Rightarrow> jsval res \<times> machine" where
  "beforeThisEvent F c m = doCallback F PBeforeThis (hook_at F (''onbefore'' @ c_name c)) c m"

definition afterThisEvent :: "fsm \<Rightarrow> ctx \<Rightarrow> machine \<Rightarrow> jsval res \<times> machine" where
  "afterThisEvent F c m =
     doCallback F PAfterThis
       (orelse (hook_at F (''onafter'' @ c_name c)) (hook_at F (''on'' @ c_name c))) c m"

definition leaveThisState :: "fsm \<Rightarrow> ctx \<Rightarrow> machine \<Rightarrow> jsval res \<times> machine" where
  "leaveThisState F c m = doCallback F PLeaveThis (hook_at F (''onleave'' @ c_from c)) c m"

definition enterThisState :: "fsm \<Rightarrow> ctx \<Rightarrow> machine \<Rightarrow> jsval res \<times> machine" where
  "enterThisState F c m =
     doCallback F PEnterThis
       (orelse (hook_at F (''onenter'' @ c_to c)) (hook_at F (''on'' @ c_to c))) c m"

text \<open>
  Lines 114 to 118. The function returns \<^verbatim>\<open>false\<close> or nothing; \<^verbatim>\<open>||\<close> does not
  evaluate its right operand when the left one holds.
\<close>

definition beforeEvent :: "fsm \<Rightarrow> ctx \<Rightarrow> machine \<Rightarrow> jsval res \<times> machine" where
  "beforeEvent F c m =
     (case beforeThisEvent F c m of
        (Throws e, m1) \<Rightarrow> (Throws e, m1)
      | (Returns v, m1) \<Rightarrow>
          if v = Bool False then (Returns (Bool False), m1)
          else (case beforeAnyEvent F c m1 of
                  (Throws e, m2) \<Rightarrow> (Throws e, m2)
                | (Returns w, m2) \<Rightarrow>
                    (Returns (if w = Bool False then Bool False else Undefined), m2)))"

definition afterEvent :: "fsm \<Rightarrow> ctx \<Rightarrow> machine \<Rightarrow> jsval res \<times> machine" where
  "afterEvent F c m =
     (case afterThisEvent F c m of
        (Throws e, m1) \<Rightarrow> (Throws e, m1)
      | (Returns v, m1) \<Rightarrow>
          (case afterAnyEvent F c m1 of
             (Throws e, m2) \<Rightarrow> (Throws e, m2)
           | (Returns w, m2) \<Rightarrow> (Returns Undefined, m2)))"

definition leaveState :: "fsm \<Rightarrow> ctx \<Rightarrow> machine \<Rightarrow> jsval res \<times> machine" where
  "leaveState F c m =
     (case leaveThisState F c m of
        (Throws e, m1) \<Rightarrow> (Throws e, m1)
      | (Returns specific, m1) \<Rightarrow>
          (case leaveAnyState F c m1 of
             (Throws e, m2) \<Rightarrow> (Throws e, m2)
           | (Returns general, m2) \<Rightarrow>
               if specific = Bool False \<or> general = Bool False then (Returns (Bool False), m2)
               else if specific = ASYNC \<or> general = ASYNC then (Returns ASYNC, m2)
               else (Returns Undefined, m2)))"

definition enterState :: "fsm \<Rightarrow> ctx \<Rightarrow> machine \<Rightarrow> jsval res \<times> machine" where
  "enterState F c m =
     (case enterThisState F c m of
        (Throws e, m1) \<Rightarrow> (Throws e, m1)
      | (Returns v, m1) \<Rightarrow>
          (case enterAnyState F c m1 of
             (Throws e, m2) \<Rightarrow> (Throws e, m2)
           | (Returns w, m2) \<Rightarrow> (Returns Undefined, m2)))"

subsection \<open>Introspection\<close>

text \<open>
  Line 77. \<^verbatim>\<open>map\<close> is a plain object: for a name that was never registered,
  \<^verbatim>\<open>map[event]\<close> is what the object inherits under that name, and \<^verbatim>\<open>hasOwnProperty\<close> is
  asked of that value; when nothing is inherited either, it is undefined and reading
  \<^verbatim>\<open>hasOwnProperty\<close> from it throws a TypeError. \<^verbatim>\<open>&&\<close> does not get that far when
  \<^verbatim>\<open>this.transition\<close> is set.
\<close>

definition can :: "fsm \<Rightarrow> string \<Rightarrow> machine \<Rightarrow> bool res" where
  "can F event m =
     (if transition m \<noteq> None then Returns False
      else (case f_map F event of
              Some em \<Rightarrow> Returns (em (current m) \<noteq> None \<or> em WILDCARD \<noteq> None)
            | None \<Rightarrow>
                (case map_of (f_inherited F) event of
                   Some own \<Rightarrow> Returns (own (current m) \<or> own WILDCARD)
                 | None \<Rightarrow> Throws TypeError)))"

definition cannot :: "fsm \<Rightarrow> string \<Rightarrow> machine \<Rightarrow> bool res" where
  "cannot F event m =
     (case can F event m of Returns b \<Rightarrow> Returns (\<not> b) | Throws e \<Rightarrow> Throws e)"

text \<open>Line 79; \<open>None\<close> is \<^verbatim>\<open>undefined\<close>.\<close>

definition transitions :: "fsm \<Rightarrow> machine \<Rightarrow> string list option" where
  "transitions F m = f_transitions F (current m)"

subsection \<open>\<^verbatim>\<open>buildEvent\<close>\<close>

text \<open>The function stored in \<^verbatim>\<open>fsm.transition\<close> (lines 164 to 171) and its \<^verbatim>\<open>cancel\<close>.\<close>

definition transition_fn :: "fsm \<Rightarrow> ctx \<Rightarrow> machine \<Rightarrow> jsval res \<times> machine" where
  "transition_fn F c m =
     (case enterState F c (m\<lparr> transition := None, current := c_to c \<rparr>) of
        (Throws e, m1) \<Rightarrow> (Throws e, m1)
      | (Returns u, m1) \<Rightarrow>
          (case changeState F c m1 of
             (Throws e, m2) \<Rightarrow> (Throws e, m2)
           | (Returns v, m2) \<Rightarrow>
               (case afterEvent F c m2 of
                  (Throws e, m3) \<Rightarrow> (Throws e, m3)
                | (Returns w, m3) \<Rightarrow> (Returns SUCCEEDED, m3))))"

definition cancel_fn :: "fsm \<Rightarrow> ctx \<Rightarrow> machine \<Rightarrow> jsval res \<times> machine" where
  "cancel_fn F c m =
     (case afterEvent F c (m\<lparr> transition := None \<rparr>) of
        (Throws e, m1) \<Rightarrow> (Throws e, m1)
      | (Returns w, m1) \<Rightarrow> (Returns Undefined, m1))"

text \<open>\<^verbatim>\<open>map[from] || map[WILDCARD] || from\<close> of line 145.\<close>

definition lookup_to :: "(string \<rightharpoonup> string) \<Rightarrow> string \<Rightarrow> string" where
  "lookup_to em f =
     (case em f of
        Some t \<Rightarrow> if t \<noteq> [] then t else (case em WILDCARD of
                     Some w \<Rightarrow> if w \<noteq> [] then w else f | None \<Rightarrow> f)
      | None \<Rightarrow> (case em WILDCARD of
                   Some w \<Rightarrow> if w \<noteq> [] then w else f | None \<Rightarrow> f))"

text \<open>The function \<^verbatim>\<open>buildEvent(name, map)\<close> returns, applied to \<open>args\<close>.\<close>

definition buildEvent ::
  "fsm \<Rightarrow> string \<Rightarrow> (string \<rightharpoonup> string) \<Rightarrow> jsval list \<Rightarrow> machine \<Rightarrow> jsval res \<times> machine" where
  "buildEvent F nm em args m =
     (let c = \<lparr> c_name = nm, c_from = current m, c_to = lookup_to em (current m),
                c_args = args \<rparr> in
      if transition m \<noteq> None then
        call_error F c PENDING_TRANSITION
          (''event '' @ nm @ '' inappropriate because previous transition did not complete'')
          Undefined m
      else
        (case cannot F nm m of
           Throws e \<Rightarrow> (Throws e, m)
         | Returns True \<Rightarrow>
             call_error F c INVALID_TRANSITION
               (''event '' @ nm @ '' inappropriate in current state '' @ current m)
               Undefined m
         | Returns False \<Rightarrow>
             (case beforeEvent F c m of
                (Throws e, m1) \<Rightarrow> (Throws e, m1)
              | (Returns b, m1) \<Rightarrow>
                  if b = Bool False then (Returns CANCELLED, m1)
                  else if c_from c = c_to c then
                    (case afterEvent F c m1 of
                       (Throws e, m2) \<Rightarrow> (Throws e, m2)
                     | (Returns w, m2) \<Rightarrow> (Returns NOTRANSITION, m2))
                  else
                    (case leaveState F c (m1\<lparr> transition := Some c \<rparr>) of
                       (Throws e, m3) \<Rightarrow> (Throws e, m3)
                     | (Returns leave, m3) \<Rightarrow>
                         if leave = Bool False then
                           (Returns CANCELLED, m3\<lparr> transition := None \<rparr>)
                         else if leave = ASYNC then (Returns PENDING, m3)
                         else (case transition m3 of
                                 Some p \<Rightarrow> transition_fn F p m3
                               | None \<Rightarrow> (Returns Undefined, m3))))))"

text \<open>
  What a caller writes: \<^verbatim>\<open>fsm.name(args)\<close>, \<^verbatim>\<open>fsm.transition()\<close> and
  \<^verbatim>\<open>fsm.transition.cancel()\<close>. \<open>fire\<close> is the call of the function line 67 has built
  for the event, which is what \<^verbatim>\<open>fsm.name\<close> holds in a well-named configuration (see
  \<open>member_of\<close> and \<open>well_named\<close> below). Under a name that has no event function and
  under which nothing else is stored or inherited the member is undefined, and calling
  it throws a TypeError; so does reading \<^verbatim>\<open>cancel\<close> from null. No statement below
  fires a name without event function.
\<close>

definition fire :: "fsm \<Rightarrow> string \<Rightarrow> jsval list \<Rightarrow> machine \<Rightarrow> jsval res \<times> machine" where
  "fire F nm args m =
     (case f_map F nm of
        None \<Rightarrow> (Throws TypeError, m)
      | Some em \<Rightarrow> buildEvent F nm em args m)"

definition call_transition :: "fsm \<Rightarrow> machine \<Rightarrow> jsval res \<times> machine" where
  "call_transition F m =
     (case transition m of None \<Rightarrow> (Throws TypeError, m) | Some p \<Rightarrow> transition_fn F p m)"

definition call_cancel :: "fsm \<Rightarrow> machine \<Rightarrow> jsval res \<times> machine" where
  "call_cancel F m =
     (case transition m of None \<Rightarrow> (Throws TypeError, m) | Some p \<Rightarrow> cancel_fn F p m)"

subsection \<open>\<^verbatim>\<open>create\<close>\<close>

definition empty_tables :: tables where
  "empty_tables = \<lparr> t_map = Map.empty, t_transitions = Map.empty \<rparr>"

text \<open>\<^verbatim>\<open>initial.event || 'startup'\<close> of line 58.\<close>

definition initial_event :: "initial_spec \<Rightarrow> string" where
  "initial_event i =
     (case i_event i of Some s \<Rightarrow> (if s \<noteq> [] then s else ''startup'') | None \<Rightarrow> ''startup'')"

text \<open>Lines 57 to 63.\<close>

definition build_tables :: "config \<Rightarrow> tables" where
  "build_tables cfg =
     add_events (cfg_events cfg)
       (case cfg_initial cfg of
          None \<Rightarrow> empty_tables
        | Some i \<Rightarrow>
            add \<lparr> e_name = initial_event i, e_from = FromOne ''none'',
                  e_to = Some (i_state i) \<rparr> empty_tables)"

text \<open>
  The own properties of \<^verbatim>\<open>fsm\<close> after lines 65 to 81: the fixed members are assigned
  last, the callbacks before them, the event functions first, one for each own key of
  \<^verbatim>\<open>map\<close>; a later assignment replaces an earlier one under the same name.
\<close>

datatype member = EventFn string | Callback hook | Fixed

definition fixed_members :: "string list" where
  "fixed_members =
     [''current'', ''is'', ''can'', ''cannot'', ''transitions'', ''isFinished'', ''error'']"

definition event_names :: "config \<Rightarrow> string list" where
  "event_names cfg =
     (case cfg_initial cfg of Some i \<Rightarrow> [initial_event i] | None \<Rightarrow> [])
     @ map e_name (cfg_events cfg)"

definition member_of :: "config \<Rightarrow> string \<Rightarrow> member option" where
  "member_of cfg k =
     (if k \<in> set fixed_members then Some Fixed
      else (case cfg_callbacks cfg k of
              Some h \<Rightarrow> Some (Callback h)
            | None \<Rightarrow> if k \<in> set (event_names cfg) then Some (EventFn k) else None))"

text \<open>
  Every name that can become \<^verbatim>\<open>current\<close> or is read as a key of an event's map: the
  sentinel, the wildcard, the initial state, and each \<^verbatim>\<open>from\<close> and \<^verbatim>\<open>to\<close>.
\<close>

definition state_names :: "config \<Rightarrow> string list" where
  "state_names cfg =
     [''none'', WILDCARD]
     @ (case cfg_initial cfg of Some i \<Rightarrow> [i_state i] | None \<Rightarrow> [])
     @ concat (map (\<lambda>e. from_list (e_from e) @ (case e_to e of Some t \<Rightarrow> [t] | None \<Rightarrow> []))
                   (cfg_events cfg))"

text \<open>Every hook is looked up under a name that begins with \<^verbatim>\<open>on\<close> (lines 103 to 112).\<close>

fun is_hook_name :: "string \<Rightarrow> bool" where
  "is_hook_name (a # b # k) = (a = CHR ''o'' \<and> b = CHR ''n'')"
| "is_hook_name k = False"

text \<open>
  The configurations for which the record \<open>fsm\<close> is the object the source builds:
  \<^item> under each event name \<^verbatim>\<open>fsm\<close> holds that event's function (no callback and no fixed
    member has replaced it), the name is not one a hook is looked up under, it is not
    \<^verbatim>\<open>transition\<close>, and nothing is inherited under it;
  \<^item> nothing is stored under \<^verbatim>\<open>transition\<close> at construction;
  \<^item> nothing is inherited under a state name (lines 50, 53 and 145 read and write the
    tables under state names);
  \<^item> the engine's table inherits nothing under a hook name or \<^verbatim>\<open>transition\<close>, and it
    does provide \<^verbatim>\<open>hasOwnProperty\<close>, which line 77 calls.
\<close>

definition well_named :: "config \<Rightarrow> bool" where
  "well_named cfg =
     (list_all (\<lambda>n. member_of cfg n = Some (EventFn n) \<and> \<not> is_hook_name n
                   \<and> n \<noteq> ''transition'' \<and> map_of (cfg_inherited cfg) n = None)
        (event_names cfg)
      \<and> member_of cfg ''transition'' = None
      \<and> list_all (\<lambda>s. map_of (cfg_inherited cfg) s = None) (state_names cfg)
      \<and> list_all (\<lambda>(k, own). \<not> is_hook_name k \<and> k \<noteq> ''transition'') (cfg_inherited cfg)
      \<and> map_of (cfg_inherited cfg) ''hasOwnProperty'' \<noteq> None)"

text \<open>
  What the closures of the machine share: the two tables, the callbacks that hook
  resolution finds, the error handler of line 81, and the engine's table.
\<close>

definition build_fsm :: "config \<Rightarrow> fsm" where
  "build_fsm cfg =
     \<lparr> f_map = t_map (build_tables cfg),
       f_transitions = t_transitions (build_tables cfg),
       f_callbacks = cfg_callbacks cfg,
       f_error = (case cfg_error cfg of Some h \<Rightarrow> h | None \<Rightarrow> default_error),
       f_inherited = cfg_inherited cfg \<rparr>"

definition initial_machine :: machine where
  "initial_machine = \<lparr> current = ''none'', transition = None, log = [] \<rparr>"

text \<open>
  \<^verbatim>\<open>create\<close> on a well-named configuration returns the machine, or throws what the call
  \<^verbatim>\<open>fsm[initial.event]()\<close> of line 84 throws; the member found there is the initial
  event's function. \<open>None\<close> says that the configuration is not well named and that this
  model has no answer for it.
\<close>

definition create :: "config \<Rightarrow> (jsval + (fsm \<times> machine)) option" where
  "create cfg =
     (if \<not> well_named cfg then None
      else
        (let F = build_fsm cfg in
         case cfg_initial cfg of
           None \<Rightarrow> Some (Inr (F, initial_machine))
         | Some i \<Rightarrow>
             if i_defer i then Some (Inr (F, initial_machine))
             else (case member_of cfg (initial_event i) of
                     Some (EventFn n) \<Rightarrow>
                       (case fire F n [] initial_machine of
                          (Throws e, m) \<Rightarrow> Some (Inl e)
                        | (Returns v, m) \<Rightarrow> Some (Inr (F, m)))
                   | Some (Callback h) \<Rightarrow> None
                   | Some Fixed \<Rightarrow> None
                   | None \<Rightarrow> None)))"

text \<open>
  Lines 154 to 188 of \<^verbatim>\<open>buildEvent\<close>, what a firing does once both guards have let it
  pass; \<open>buildEvent_cases\<close> below shows that \<open>buildEvent\<close> is the two guards followed by this.
\<close>

definition proceed :: "fsm \<Rightarrow> ctx \<Rightarrow> machine \<Rightarrow> jsval res \<times> machine" where
  "proceed F c m =
     (case beforeEvent F c m of
        (Throws e, m1) \<Rightarrow> (Throws e, m1)
      | (Returns b, m1) \<Rightarrow>
          if b = Bool False then (Returns CANCELLED, m1)
          else if c_from c = c_to c then
            (case afterEvent F c m1 of
               (Throws e, m2) \<Rightarrow> (Throws e, m2)
             | (Returns w, m2) \<Rightarrow> (Returns NOTRANSITION, m2))
          else
            (case leaveState F c (m1\<lparr> transition := Some c \<rparr>) of
               (Throws e, m3) \<Rightarrow> (Throws e, m3)
             | (Returns leave, m3) \<Rightarrow>
                 if leave = Bool False then
                   (Returns CANCELLED, m3\<lparr> transition := None \<rparr>)
                 else if leave = ASYNC then (Returns PENDING, m3)
                 else (case transition m3 of
                         Some p \<Rightarrow> transition_fn F p m3
                       | None \<Rightarrow> (Returns Undefined, m3))))"

subsection \<open>Reading the log\<close>

definition logged :: "machine \<Rightarrow> entry list \<Rightarrow> machine" where
  "logged m es = m\<lparr> log := log m @ es \<rparr>"

text \<open>What a firing has added to the log.\<close>

definition new_entries :: "machine \<Rightarrow> machine \<Rightarrow> entry list" where
  "new_entries m m' = drop (length (log m)) (log m')"

fun is_call :: "entry \<Rightarrow> bool" where
  "is_call (Called p k c) = True"
| "is_call (Reported code c) = False"

fun is_report :: "int \<Rightarrow> entry \<Rightarrow> bool" where
  "is_report code (Reported code' c) = (code' = code)"
| "is_report code (Called p k c) = False"


text \<open>The entries a hook can leave: its call, and the report of what it threw.\<close>

fun callback_entry :: "entry \<Rightarrow> bool" where
  "callback_entry (Called p k c) = True"
| "callback_entry (Reported code c) = (code = INVALID_CALLBACK)"


text \<open>A step that only runs hooks: it touches nothing but the log.\<close>

definition hook_run :: "(machine \<Rightarrow> jsval res \<times> machine) \<Rightarrow> bool" where
  "hook_run f = (\<forall>m. \<exists>es. snd (f m) = logged m es \<and> list_all callback_entry es)"

subsection \<open>Hooks that return\<close>



definition present :: "fsm \<Rightarrow> string \<Rightarrow> bool" where
  "present F k = (f_callbacks F k \<noteq> None)"

text \<open>What one \<^verbatim>\<open>doCallback\<close> logs and returns when the hook does not throw.\<close>

definition calls :: "point \<Rightarrow> (string \<times> hook) option \<Rightarrow> ctx \<Rightarrow> entry list" where
  "calls pt func c = (case func of None \<Rightarrow> [] | Some (k, h) \<Rightarrow> [Called pt k c])"


definition resolved :: "fsm \<Rightarrow> (string \<times> hook) option \<Rightarrow> bool" where
  "resolved F func = (\<forall>k h. func = Some (k, h) \<longrightarrow> f_callbacks F k = Some h)"



subsection \<open>Reading the tables\<close>

text \<open>
  The names in what \<^verbatim>\<open>transitions()\<close> returns, none when it is undefined; the event
  \<open>nm\<close> has an entry of its own for the state \<open>s\<close>; the index lists exactly those.
\<close>

definition names_of :: "string list option \<Rightarrow> string list" where
  "names_of r = (case r of Some es \<Rightarrow> es | None \<Rightarrow> [])"

definition has_entry :: "(string \<rightharpoonup> (string \<rightharpoonup> string)) \<Rightarrow> string \<Rightarrow> string \<Rightarrow> bool" where
  "has_entry mp nm s = (case mp nm of Some em \<Rightarrow> em s \<noteq> None | None \<Rightarrow> False)"

definition index_agrees :: "tables \<Rightarrow> bool" where
  "index_agrees T =
     (\<forall>s nm. (nm \<in> set (names_of (t_transitions T s))) = has_entry (t_map T) nm s)"


subsection \<open>A traffic light, for concrete runs\<close>

text \<open>
  Part of the engine's table, for the concrete runs: six methods of \<^verbatim>\<open>Object.prototype\<close>,
  functions whose own properties are \<^verbatim>\<open>length\<close> and \<^verbatim>\<open>name\<close>. The general statements
  hold for every table.
\<close>

definition function_own :: "string \<Rightarrow> bool" where
  "function_own s = (s = ''length'' \<or> s = ''name'')"

definition object_methods :: "(string \<times> (string \<Rightarrow> bool)) list" where
  "object_methods =
     [(''toString'', function_own), (''toLocaleString'', function_own),
      (''valueOf'', function_own), (''hasOwnProperty'', function_own),
      (''isPrototypeOf'', function_own), (''propertyIsEnumerable'', function_own)]"

definition light_events :: "event_spec list" where
  "light_events =
     [\<lparr> e_name = ''warn'', e_from = FromOne ''green'', e_to = Some ''yellow'' \<rparr>,
      \<lparr> e_name = ''panic'', e_from = FromMany [''green'', ''yellow''], e_to = Some ''red'' \<rparr>,
      \<lparr> e_name = ''clear'', e_from = FromOmitted, e_to = Some ''green'' \<rparr>]"

definition light_cfg :: "(string \<rightharpoonup> hook) \<Rightarrow> config" where
  "light_cfg cbs =
     \<lparr> cfg_initial = Some \<lparr> i_state = ''green'', i_event = None, i_defer = False \<rparr>,
       cfg_events = light_events, cfg_callbacks = cbs, cfg_error = None,
       cfg_inherited = object_methods \<rparr>"

definition light :: "(string \<rightharpoonup> hook) \<Rightarrow> fsm" where
  "light cbs = build_fsm (light_cfg cbs)"

definition idle :: "string \<Rightarrow> machine" where
  "idle s = \<lparr> current = s, transition = None, log = [] \<rparr>"

definition warn_ctx :: ctx where
  "warn_ctx = \<lparr> c_name = ''warn'', c_from = ''green'', c_to = ''yellow'', c_args = [] \<rparr>"

definition boom :: hook where
  "boom c = Throws (Str ''boom'')"

definition refuse :: hook where
  "refuse c = Returns (Bool False)"

definition suspend :: hook where
  "suspend c = Returns ASYNC"

definition quiet :: hook where
  "quiet c = Returns Undefined"

text \<open>The same event registered twice from the same state.\<close>

definition twice_cfg :: config where
  "twice_cfg =
     \<lparr> cfg_initial = Some \<lparr> i_state = ''green'', i_event = None, i_defer = False \<rparr>,
       cfg_events =
         [\<lparr> e_name = ''warn'', e_from = FromOne ''green'', e_to = Some ''yellow'' \<rparr>,
          \<lparr> e_name = ''warn'', e_from = FromOne ''green'', e_to = Some ''red'' \<rparr>],
       cfg_callbacks = Map.empty, cfg_error = None, cfg_inherited = object_methods \<rparr>"

text \<open>An event without \<^verbatim>\<open>to\<close>, its \<^verbatim>\<open>from\<close> left open.\<close>

definition noop_cfg :: "from_spec \<Rightarrow> config" where
  "noop_cfg f =
     \<lparr> cfg_initial = Some \<lparr> i_state = ''green'', i_event = None, i_defer = False \<rparr>,
       cfg_events = [\<lparr> e_name = ''noop'', e_from = f, e_to = None \<rparr>],
       cfg_callbacks = Map.empty, cfg_error = None, cfg_inherited = object_methods \<rparr>"





text \<open>The light with one more event, to try names that meet other members of the object.\<close>

definition light_with :: "string \<Rightarrow> config" where
  "light_with n =
     (light_cfg Map.empty)
       \<lparr> cfg_events := light_events
            @ [\<lparr> e_name = n, e_from = FromOne ''green'', e_to = Some ''red'' \<rparr>] \<rparr>"


section \<open>Properties\<close>

lemmas run_defs = build_fsm_def build_tables_def add_def add_step_def to_or_def
  initial_event_def empty_tables_def light_cfg_def light_events_def light_def fire_def
  buildEvent_def cannot_def can_def lookup_to_def WILDCARD_def call_error_def
  beforeEvent_def afterEvent_def leaveState_def enterState_def
  beforeThisEvent_def beforeAnyEvent_def afterThisEvent_def afterAnyEvent_def
  leaveThisState_def leaveAnyState_def enterThisState_def enterAnyState_def changeState_def
  doCallback_def hook_at_def orelse_def transition_fn_def cancel_fn_def
  call_transition_def call_cancel_def transitions_def
  default_error_def idle_def warn_ctx_def initial_machine_def create_def ASYNC_def
  SUCCEEDED_def NOTRANSITION_def CANCELLED_def PENDING_def new_entries_def Let_def
  boom_def refuse_def suspend_def quiet_def
  well_named_def member_of_def event_names_def state_names_def fixed_members_def
  object_methods_def function_own_def

subsection \<open>Hooks only write to the log\<close>

lemma logged_simps [simp]:
  "current (logged m es) = current m"
  "transition (logged m es) = transition m"
  "log (logged m es) = log m @ es"
  "logged (logged m es) es' = logged m (es @ es')"
  "logged m [] = m"
  "(logged m es)\<lparr>transition := t\<rparr> = logged (m\<lparr>transition := t\<rparr>) es"
  "(logged m es)\<lparr>current := s\<rparr> = logged (m\<lparr>current := s\<rparr>) es"
  by (simp_all add: logged_def)

lemma new_entries_logged [simp]: "new_entries m (logged m es) = es"
  by (simp add: new_entries_def)

lemma new_entries_append [simp]: "log m' = log m @ es \<Longrightarrow> new_entries m m' = es"
  by (simp add: new_entries_def)

lemma codes_distinct [simp]:
  "INVALID_TRANSITION \<noteq> INVALID_CALLBACK" "PENDING_TRANSITION \<noteq> INVALID_CALLBACK"
  "INVALID_TRANSITION \<noteq> PENDING_TRANSITION" "PENDING_TRANSITION \<noteq> INVALID_TRANSITION"
  by (simp_all add: INVALID_TRANSITION_def PENDING_TRANSITION_def INVALID_CALLBACK_def)

lemma call_error_logged:
  "call_error F c code msg e m =
     (f_error F \<lparr> r_ctx = c, r_error = code, r_msg = msg, r_e = e \<rparr>, logged m [Reported code c])"
  by (simp add: call_error_def logged_def)

lemma doCallback_effect:
  "\<exists>es. snd (doCallback F pt func c m) = logged m es \<and> list_all callback_entry es"
proof (cases func)
  case None
  then have "snd (doCallback F pt func c m) = logged m []"
    by (simp add: doCallback_def)
  then show ?thesis by (intro exI [of _ "[]"]) simp
next
  case (Some kh)
  obtain k h where kh: "kh = (k, h)" by (cases kh)
  show ?thesis
  proof (cases "h c")
    case (Returns v)
    with Some kh have "snd (doCallback F pt func c m) = logged m [Called pt k c]"
      by (simp add: doCallback_def logged_def)
    then show ?thesis by (intro exI [of _ "[Called pt k c]"]) simp
  next
    case (Throws e)
    with Some kh have "snd (doCallback F pt func c m) =
        logged m [Called pt k c, Reported INVALID_CALLBACK c]"
      by (simp add: doCallback_def call_error_def logged_def)
    then show ?thesis
      by (intro exI [of _ "[Called pt k c, Reported INVALID_CALLBACK c]"]) simp
  qed
qed

lemma hook_runI:
  "(\<And>m. \<exists>es. snd (f m) = logged m es \<and> list_all callback_entry es) \<Longrightarrow> hook_run f"
  by (simp add: hook_run_def)

lemma hook_runD:
  "hook_run f \<Longrightarrow> \<exists>es. snd (f m) = logged m es \<and> list_all callback_entry es"
  by (simp add: hook_run_def)

lemma hook_run_doCallback: "hook_run (doCallback F pt func c)"
  by (rule hook_runI) (rule doCallback_effect)

text \<open>Two runs in a row, the second one depending on what the first returned.\<close>

lemma hook_run_seq:
  assumes f: "hook_run f" and g: "\<And>v. hook_run (g v)"
  shows "hook_run (\<lambda>m. case f m of (Throws e, m1) \<Rightarrow> (Throws e, m1)
                                 | (Returns v, m1) \<Rightarrow> g v m1)"
proof (rule hook_runI)
  fix m
  obtain r m1 where fm: "f m = (r, m1)" by (cases "f m")
  from hook_runD [OF f, of m] fm
  obtain es where es: "m1 = logged m es" "list_all callback_entry es"
    by auto
  show "\<exists>es. snd (case f m of (Throws e, m1) \<Rightarrow> (Throws e, m1)
                            | (Returns v, m1) \<Rightarrow> g v m1) = logged m es
      \<and> list_all callback_entry es"
  proof (cases r)
    case (Throws e)
    with fm es show ?thesis by auto
  next
    case (Returns v)
    from hook_runD [OF g, of v m1]
    obtain es' where es': "snd (g v m1) = logged m1 es'" "list_all callback_entry es'"
      by auto
    with Returns fm es
    have "snd (case f m of (Throws e, m1) \<Rightarrow> (Throws e, m1)
                         | (Returns v, m1) \<Rightarrow> g v m1) = logged m (es @ es')"
      by simp
    moreover have "list_all callback_entry (es @ es')" using es es' by simp
    ultimately show ?thesis by blast
  qed
qed

lemma hook_run_const: "hook_run (\<lambda>m. (r, m))"
  by (rule hook_runI, intro exI [of _ "[]"]) simp

lemma hook_run_if: "hook_run f \<Longrightarrow> hook_run g \<Longrightarrow> hook_run (\<lambda>m. if b then f m else g m)"
  by (cases b) simp_all

lemma hook_run_beforeEvent: "hook_run (beforeEvent F c)"
  unfolding beforeEvent_def beforeThisEvent_def beforeAnyEvent_def
  by (intro hook_run_seq hook_run_doCallback hook_run_if hook_run_const)

lemma hook_run_afterEvent: "hook_run (afterEvent F c)"
  unfolding afterEvent_def afterThisEvent_def afterAnyEvent_def
  by (intro hook_run_seq hook_run_doCallback hook_run_if hook_run_const)

lemma hook_run_leaveState: "hook_run (leaveState F c)"
  unfolding leaveState_def leaveThisState_def leaveAnyState_def
  by (intro hook_run_seq hook_run_doCallback hook_run_if hook_run_const)

lemma hook_run_enterState: "hook_run (enterState F c)"
  unfolding enterState_def enterThisState_def enterAnyState_def
  by (intro hook_run_seq hook_run_doCallback hook_run_if hook_run_const)

lemma hook_run_changeState: "hook_run (changeState F c)"
  unfolding changeState_def by (rule hook_run_doCallback)

lemma transition_fn_effect:
  "\<exists>es. snd (transition_fn F c m) = logged (m\<lparr> transition := None, current := c_to c \<rparr>) es
        \<and> list_all callback_entry es"
proof -
  have "hook_run (\<lambda>m. case enterState F c m of
        (Throws e, m1) \<Rightarrow> (Throws e, m1)
      | (Returns u, m1) \<Rightarrow>
          (case changeState F c m1 of
             (Throws e, m2) \<Rightarrow> (Throws e, m2)
           | (Returns v, m2) \<Rightarrow>
               (case afterEvent F c m2 of
                  (Throws e, m3) \<Rightarrow> (Throws e, m3)
                | (Returns w, m3) \<Rightarrow> (Returns SUCCEEDED, m3))))"
    by (intro hook_run_seq hook_run_enterState hook_run_changeState hook_run_afterEvent
        hook_run_const)
  from hook_runD [OF this, of "m\<lparr> transition := None, current := c_to c \<rparr>"]
  show ?thesis by (simp add: transition_fn_def)
qed

lemma cancel_fn_effect:
  "\<exists>es. snd (cancel_fn F c m) = logged (m\<lparr> transition := None \<rparr>) es
        \<and> list_all callback_entry es"
proof -
  have "hook_run (\<lambda>m. case afterEvent F c m of
        (Throws e, m1) \<Rightarrow> (Throws e, m1)
      | (Returns w, m1) \<Rightarrow> (Returns Undefined, m1))"
    by (intro hook_run_seq hook_run_afterEvent hook_run_const)
  from hook_runD [OF this, of "m\<lparr> transition := None \<rparr>"]
  show ?thesis by (simp add: cancel_fn_def)
qed

subsection \<open>The two guards, then the hooks\<close>

lemma buildEvent_cases:
  "buildEvent F nm em args m =
     (let c = \<lparr> c_name = nm, c_from = current m, c_to = lookup_to em (current m),
                c_args = args \<rparr> in
      if transition m \<noteq> None then
        call_error F c PENDING_TRANSITION
          (''event '' @ nm @ '' inappropriate because previous transition did not complete'')
          Undefined m
      else
        (case cannot F nm m of
           Throws e \<Rightarrow> (Throws e, m)
         | Returns True \<Rightarrow>
             call_error F c INVALID_TRANSITION
               (''event '' @ nm @ '' inappropriate in current state '' @ current m)
               Undefined m
         | Returns False \<Rightarrow> proceed F c m))"
  unfolding buildEvent_def proceed_def by (rule refl)

lemma proceed_entries:
  "\<exists>es. log (snd (proceed F c m)) = log m @ es \<and> list_all callback_entry es"
proof -
  obtain r1 m1 where b: "beforeEvent F c m = (r1, m1)" by (cases "beforeEvent F c m")
  from hook_runD [OF hook_run_beforeEvent, of F c m] b
  obtain es1 where m1: "m1 = logged m es1" and es1: "list_all callback_entry es1" by auto
  show ?thesis
  proof (cases r1)
    case (Throws e)
    with b m1 es1 show ?thesis by (auto simp: proceed_def)
  next
    case (Returns v)
    show ?thesis
    proof (cases "v = Bool False")
      case True
      with Returns b m1 es1 show ?thesis by (auto simp: proceed_def)
    next
      case nf: False
      show ?thesis
      proof (cases "c_from c = c_to c")
        case True
        obtain r2 m2 where a: "afterEvent F c m1 = (r2, m2)" by (cases "afterEvent F c m1")
        from hook_runD [OF hook_run_afterEvent, of F c m1] a
        obtain es2 where m2: "m2 = logged m1 es2" and es2: "list_all callback_entry es2" by auto
        have "log (snd (proceed F c m)) = log m @ (es1 @ es2)"
          using b Returns nf True a m1 m2 by (cases r2) (simp_all add: proceed_def)
        moreover have "list_all callback_entry (es1 @ es2)" using es1 es2 by simp
        ultimately show ?thesis by blast
      next
        case False
        obtain r3 m3 where l: "leaveState F c (m1\<lparr> transition := Some c \<rparr>) = (r3, m3)"
          by (cases "leaveState F c (m1\<lparr> transition := Some c \<rparr>)")
        from hook_runD [OF hook_run_leaveState, of F c "m1\<lparr> transition := Some c \<rparr>"] l
        obtain es3 where m3: "m3 = logged (m1\<lparr> transition := Some c \<rparr>) es3"
          and es3: "list_all callback_entry es3" by auto
        have pre: "proceed F c m = (case r3 of Throws e \<Rightarrow> (Throws e, m3)
           | Returns leave \<Rightarrow> if leave = Bool False then
                   (Returns CANCELLED, m3\<lparr> transition := None \<rparr>)
                 else if leave = ASYNC then (Returns PENDING, m3)
                 else transition_fn F c m3)"
          using b Returns nf False l m3 by (simp add: proceed_def split: res.splits)
        from transition_fn_effect [of F c m3]
        obtain es4 where t: "snd (transition_fn F c m3) =
            logged (m3\<lparr> transition := None, current := c_to c \<rparr>) es4"
          and es4: "list_all callback_entry es4" by auto
        have l3: "log m3 = log m @ (es1 @ es3)" using m3 m1 by simp
        have "log (snd (proceed F c m)) = log m @ (es1 @ es3) \<or>
              log (snd (proceed F c m)) = log m @ (es1 @ es3 @ es4)"
          using pre t l3 by (auto split: res.splits)
        moreover have "list_all callback_entry (es1 @ es3)"
          "list_all callback_entry (es1 @ es3 @ es4)"
          using es1 es3 es4 by simp_all
        ultimately show ?thesis by blast
      qed
    qed
  qed
qed

lemma callback_entry_no_report:
  "list_all callback_entry es \<Longrightarrow> code \<noteq> INVALID_CALLBACK \<Longrightarrow> \<not> list_ex (is_report code) es"
proof (induction es)
  case Nil
  then show ?case by simp
next
  case (Cons x xs)
  then show ?case by (cases x) auto
qed

lemma proceed_no_report:
  "code \<noteq> INVALID_CALLBACK \<Longrightarrow> \<not> list_ex (is_report code) (new_entries m (snd (proceed F c m)))"
proof -
  assume c: "code \<noteq> INVALID_CALLBACK"
  from proceed_entries [of F c m] obtain es
    where "log (snd (proceed F c m)) = log m @ es" "list_all callback_entry es" by blast
  with c show ?thesis by (simp add: callback_entry_no_report)
qed





subsection \<open>Firings whose hooks return\<close>

lemma doCallback_absent: "doCallback F pt None c m = (Returns Undefined, m)"
  by (simp add: doCallback_def)



lemma hook_at_None: "f_callbacks F k = None \<Longrightarrow> hook_at F k = None"
  by (simp add: hook_at_def)



lemma resolved_hook_at [simp]: "resolved F (hook_at F k)"
  by (auto simp: resolved_def hook_at_def split: option.splits)

lemma resolved_orelse [simp]: "resolved F a \<Longrightarrow> resolved F b \<Longrightarrow> resolved F (orelse a b)"
  by (auto simp: resolved_def orelse_def split: option.splits)









subsection \<open>The pending guard\<close>

text \<open>
  C4. When \<^verbatim>\<open>fsm.transition\<close> is set, a generated event function calls the error handler
  with \<^verbatim>\<open>PENDING_TRANSITION\<close> and returns what the handler returns or throws. The only
  thing added to the log is that report: no hook of any lifecycle point runs, and
  \<^verbatim>\<open>INVALID_TRANSITION\<close> is not reported, whatever the event's map holds for the current
  state.
\<close>

theorem pending_guard:
  assumes "transition m \<noteq> None" and "f_map F nm = Some em"
  shows "fire F nm args m =
      (f_error F
         \<lparr> r_ctx = \<lparr> c_name = nm, c_from = current m, c_to = lookup_to em (current m),
                     c_args = args \<rparr>,
           r_error = PENDING_TRANSITION,
           r_msg = ''event '' @ nm @
                   '' inappropriate because previous transition did not complete'',
           r_e = Undefined \<rparr>,
       m\<lparr> log := log m @
            [Reported PENDING_TRANSITION
               \<lparr> c_name = nm, c_from = current m, c_to = lookup_to em (current m),
                  c_args = args \<rparr>] \<rparr>)
     \<and> \<not> list_ex is_call (new_entries m (snd (fire F nm args m)))
     \<and> \<not> list_ex (is_report INVALID_TRANSITION) (new_entries m (snd (fire F nm args m)))"
  using assms by (auto simp: fire_def buildEvent_def call_error_def Let_def new_entries_def)

text \<open>A green light with a suspended \<^verbatim>\<open>warn\<close>; \<^verbatim>\<open>panic\<close> is allowed from green otherwise.\<close>

theorem pending_guard_witness:
  "transition ((idle ''green'')\<lparr> transition := Some warn_ctx \<rparr>) \<noteq> None
   \<and> fire (light Map.empty) ''panic'' [Num 7] ((idle ''green'')\<lparr> transition := Some warn_ctx \<rparr>)
     = (Throws (Str ''event panic inappropriate because previous transition did not complete''),
        \<lparr> current = ''green'', transition = Some warn_ctx,
          log = [Reported PENDING_TRANSITION
                   \<lparr> c_name = ''panic'', c_from = ''green'', c_to = ''red'',
                      c_args = [Num 7] \<rparr>] \<rparr>)"
proof -
  have h1: "transition ((idle ''green'')\<lparr> transition := Some warn_ctx \<rparr>) \<noteq> None"
    by (simp add: idle_def)
  have h2: "f_map (light Map.empty) ''panic'' = Some [''green'' \<mapsto> ''red'', ''yellow'' \<mapsto> ''red'']"
    by (simp add: run_defs)
  from pending_guard [OF h1 h2, of "[Num 7]"] h1 show ?thesis
    by (simp add: run_defs)
qed

subsection \<open>The permission check\<close>

text \<open>
  C5. With no transition pending, firing a registered event reports
  \<^verbatim>\<open>INVALID_TRANSITION\<close> and runs no hook if and only if the event's map has neither an
  entry for the current state nor a wildcard entry. The report is the call of the error
  handler of line 152: in that case the firing returns what \<^verbatim>\<open>fsm.error\<close>, applied to
  the event, \<^verbatim>\<open>INVALID_TRANSITION\<close> and the message, returns or throws, and adds nothing
  but that report to the log.
\<close>

theorem invalid_transition_iff:
  assumes "transition m = None" and "f_map F nm = Some em"
  shows "((list_ex (is_report INVALID_TRANSITION) (new_entries m (snd (fire F nm args m)))
            \<and> \<not> list_ex is_call (new_entries m (snd (fire F nm args m))))
          = (em (current m) = None \<and> em WILDCARD = None))
       \<and> (em (current m) = None \<and> em WILDCARD = None \<longrightarrow>
            fire F nm args m =
              (f_error F
                 \<lparr> r_ctx = \<lparr> c_name = nm, c_from = current m,
                             c_to = lookup_to em (current m), c_args = args \<rparr>,
                   r_error = INVALID_TRANSITION,
                   r_msg = ''event '' @ nm @ '' inappropriate in current state '' @ current m,
                   r_e = Undefined \<rparr>,
               m\<lparr> log := log m @
                    [Reported INVALID_TRANSITION
                       \<lparr> c_name = nm, c_from = current m,
                          c_to = lookup_to em (current m), c_args = args \<rparr>] \<rparr>))"
proof (cases "em (current m) = None \<and> em WILDCARD = None")
  case True
  with assms have "cannot F nm m = Returns True" by (simp add: cannot_def can_def)
  with assms have f: "fire F nm args m =
      (f_error F
         \<lparr> r_ctx = \<lparr> c_name = nm, c_from = current m,
                     c_to = lookup_to em (current m), c_args = args \<rparr>,
           r_error = INVALID_TRANSITION,
           r_msg = ''event '' @ nm @ '' inappropriate in current state '' @ current m,
           r_e = Undefined \<rparr>,
       logged m [Reported INVALID_TRANSITION
        \<lparr> c_name = nm, c_from = current m, c_to = lookup_to em (current m), c_args = args \<rparr>])"
    by (simp add: fire_def buildEvent_cases call_error_logged Let_def)
  then have "snd (fire F nm args m) =
      logged m [Reported INVALID_TRANSITION
        \<lparr> c_name = nm, c_from = current m, c_to = lookup_to em (current m), c_args = args \<rparr>]"
    by simp
  with True f show ?thesis by (simp add: logged_def)
next
  case False
  with assms have "cannot F nm m = Returns False" by (auto simp: cannot_def can_def)
  with assms have "snd (fire F nm args m) =
      snd (proceed F \<lparr> c_name = nm, c_from = current m, c_to = lookup_to em (current m),
                         c_args = args \<rparr> m)"
    by (simp add: fire_def buildEvent_cases Let_def)
  then have "\<not> list_ex (is_report INVALID_TRANSITION) (new_entries m (snd (fire F nm args m)))"
    by (simp add: proceed_no_report)
  with False show ?thesis by blast
qed

text \<open>\<^verbatim>\<open>warn\<close> is registered from green only: refused on red, let through on green.\<close>

theorem invalid_transition_iff_witness:
  "transition (idle ''red'') = None
   \<and> (list_ex (is_report INVALID_TRANSITION)
         (new_entries (idle ''red'') (snd (fire (light Map.empty) ''warn'' [] (idle ''red''))))
       \<and> \<not> list_ex is_call
         (new_entries (idle ''red'') (snd (fire (light Map.empty) ''warn'' [] (idle ''red'')))))
   \<and> fire (light Map.empty) ''warn'' [] (idle ''red'')
     = (Throws (Str ''event warn inappropriate in current state red''),
        \<lparr> current = ''red'', transition = None,
          log = [Reported INVALID_TRANSITION
                   \<lparr> c_name = ''warn'', c_from = ''red'', c_to = ''red'', c_args = [] \<rparr>] \<rparr>)
   \<and> \<not> (list_ex (is_report INVALID_TRANSITION)
         (new_entries (idle ''green'') (snd (fire (light Map.empty) ''warn'' [] (idle ''green''))))
       \<and> \<not> list_ex is_call
         (new_entries (idle ''green'') (snd (fire (light Map.empty) ''warn'' [] (idle ''green'')))))"
proof -
  have h1: "transition (idle ''red'') = None" "transition (idle ''green'') = None"
    by (simp_all add: idle_def)
  have h2: "f_map (light Map.empty) ''warn'' = Some [''green'' \<mapsto> ''yellow'']"
    by (simp add: run_defs)
  have r: "[''green'' \<mapsto> ''yellow''] (current (idle ''red'')) = None
           \<and> [''green'' \<mapsto> ''yellow''] WILDCARD = None"
    by (simp add: idle_def WILDCARD_def)
  have g: "\<not> ([''green'' \<mapsto> ''yellow''] (current (idle ''green'')) = None
           \<and> [''green'' \<mapsto> ''yellow''] WILDCARD = None)"
    by (simp add: idle_def WILDCARD_def)
  note both = invalid_transition_iff [OF h1(1) h2, of "[]"]
  note red = iffD2 [OF conjunct1 [OF both] r]
  from conjunct2 [OF both] r
  have "fire (light Map.empty) ''warn'' [] (idle ''red'') =
      (f_error (light Map.empty)
         \<lparr> r_ctx = \<lparr> c_name = ''warn'', c_from = current (idle ''red''),
                     c_to = lookup_to [''green'' \<mapsto> ''yellow''] (current (idle ''red'')),
                     c_args = [] \<rparr>,
           r_error = INVALID_TRANSITION,
           r_msg = ''event '' @ ''warn'' @ '' inappropriate in current state ''
                   @ current (idle ''red''),
           r_e = Undefined \<rparr>,
       (idle ''red'')\<lparr> log := log (idle ''red'') @
            [Reported INVALID_TRANSITION
               \<lparr> c_name = ''warn'', c_from = current (idle ''red''),
                  c_to = lookup_to [''green'' \<mapsto> ''yellow''] (current (idle ''red'')),
                  c_args = [] \<rparr>] \<rparr>)"
    by blast
  then have result: "fire (light Map.empty) ''warn'' [] (idle ''red'')
     = (Throws (Str ''event warn inappropriate in current state red''),
        \<lparr> current = ''red'', transition = None,
          log = [Reported INVALID_TRANSITION
                   \<lparr> c_name = ''warn'', c_from = ''red'', c_to = ''red'', c_args = [] \<rparr>] \<rparr>)"
    by (simp add: light_def build_fsm_def light_cfg_def default_error_def idle_def
        lookup_to_def WILDCARD_def)
  from conjunct1 [OF invalid_transition_iff [OF h1(2) h2, of "[]"]] g
  have green: "\<not> (list_ex (is_report INVALID_TRANSITION)
         (new_entries (idle ''green'') (snd (fire (light Map.empty) ''warn'' [] (idle ''green''))))
       \<and> \<not> list_ex is_call
         (new_entries (idle ''green'') (snd (fire (light Map.empty) ''warn'' [] (idle ''green'')))))"
    by blast
  from h1(1) red result green show ?thesis by blast
qed

subsection \<open>What an error report leaves behind\<close>







subsection \<open>Cancelling in a before hook\<close>




subsection \<open>Which enter hooks run\<close>

text \<open>
  C7, as amended. At the enter point two hooks are called, in this order, provided
  neither throws: first the specific one, which is \<^verbatim>\<open>onenter<to>\<close> or, only when that is
  absent, the plain \<^verbatim>\<open>on<to>\<close>; then, whether or not a specific hook exists, the general
  one, which is \<^verbatim>\<open>onenterstate\<close> or, only when that is absent, \<^verbatim>\<open>onstate\<close>. Nothing is
  asked of any other callback of the machine.
\<close>

theorem enter_resolution:
  assumes "\<forall>h. (if f_callbacks F (''onenter'' @ c_to c) \<noteq> None
                 then f_callbacks F (''onenter'' @ c_to c)
                 else f_callbacks F (''on'' @ c_to c)) = Some h
               \<longrightarrow> (\<exists>v. h c = Returns v)"
    and "\<forall>h. (if f_callbacks F ''onenterstate'' \<noteq> None
               then f_callbacks F ''onenterstate''
               else f_callbacks F ''onstate'') = Some h
             \<longrightarrow> (\<exists>v. h c = Returns v)"
  shows "new_entries m (snd (enterState F c m)) =
     (if f_callbacks F (''onenter'' @ c_to c) \<noteq> None
        then [Called PEnterThis (''onenter'' @ c_to c) c]
      else if f_callbacks F (''on'' @ c_to c) \<noteq> None
        then [Called PEnterThis (''on'' @ c_to c) c]
      else [])
     @ (if f_callbacks F ''onenterstate'' \<noteq> None
          then [Called PEnterAny ''onenterstate'' c]
        else if f_callbacks F ''onstate'' \<noteq> None
          then [Called PEnterAny ''onstate'' c]
        else [])"
proof -
  define f1 where "f1 = orelse (hook_at F (''onenter'' @ c_to c)) (hook_at F (''on'' @ c_to c))"
  define f2 where "f2 = orelse (hook_at F ''onenterstate'') (hook_at F ''onstate'')"
  have r1: "\<exists>v. h c = Returns v" if "f1 = Some (k, h)" for k h
    using that assms(1) by (auto simp: f1_def orelse_def hook_at_def split: option.splits)
  have r2: "\<exists>v. h c = Returns v" if "f2 = Some (k, h)" for k h
    using that assms(2) by (auto simp: f2_def orelse_def hook_at_def split: option.splits)
  have d1: "\<exists>v. doCallback F PEnterThis f1 c m = (Returns v, logged m (calls PEnterThis f1 c))"
  proof (cases f1)
    case None
    then show ?thesis by (simp add: doCallback_def calls_def)
  next
    case (Some kh)
    obtain k h where "kh = (k, h)" by (cases kh)
    with Some r1 [of k h] show ?thesis
      by (auto simp: doCallback_def calls_def logged_def)
  qed
  have d2: "\<exists>v. doCallback F PEnterAny f2 c q = (Returns v, logged q (calls PEnterAny f2 c))"
    for q
  proof (cases f2)
    case None
    then show ?thesis by (simp add: doCallback_def calls_def)
  next
    case (Some kh)
    obtain k h where "kh = (k, h)" by (cases kh)
    with Some r2 [of k h] show ?thesis
      by (auto simp: doCallback_def calls_def logged_def)
  qed
  from d1 obtain v where v: "doCallback F PEnterThis f1 c m
      = (Returns v, logged m (calls PEnterThis f1 c))" by blast
  from d2 [of "logged m (calls PEnterThis f1 c)"] obtain w
    where w: "doCallback F PEnterAny f2 c (logged m (calls PEnterThis f1 c))
      = (Returns w, logged m (calls PEnterThis f1 c @ calls PEnterAny f2 c))" by auto
  have "enterState F c m =
      (Returns Undefined, logged m (calls PEnterThis f1 c @ calls PEnterAny f2 c))"
    unfolding enterState_def enterThisState_def enterAnyState_def
    using v w by (simp add: f1_def f2_def)
  then have "new_entries m (snd (enterState F c m))
      = calls PEnterThis f1 c @ calls PEnterAny f2 c"
    by simp
  then show ?thesis
    by (auto simp: f1_def f2_def calls_def orelse_def hook_at_def split: option.splits)
qed

text \<open>
  A light with a plain \<^verbatim>\<open>onyellow\<close> and an \<^verbatim>\<open>onstate\<close>; its leave hook, which throws, is
  not asked anything.
\<close>

theorem enter_resolution_witness:
  "new_entries (idle ''yellow'')
     (snd (enterState (light [''onyellow'' \<mapsto> quiet, ''onstate'' \<mapsto> quiet,
                              ''onleavegreen'' \<mapsto> boom]) warn_ctx
             (idle ''yellow'')))
   = [Called PEnterThis ''onyellow'' warn_ctx, Called PEnterAny ''onstate'' warn_ctx]"
proof -
  let ?F = "light [''onyellow'' \<mapsto> quiet, ''onstate'' \<mapsto> quiet, ''onleavegreen'' \<mapsto> boom]"
  have a: "\<forall>h. (if f_callbacks ?F (''onenter'' @ c_to warn_ctx) \<noteq> None
                 then f_callbacks ?F (''onenter'' @ c_to warn_ctx)
                 else f_callbacks ?F (''on'' @ c_to warn_ctx)) = Some h
               \<longrightarrow> (\<exists>v. h warn_ctx = Returns v)"
    by (simp add: light_def build_fsm_def light_cfg_def quiet_def warn_ctx_def)
  have b: "\<forall>h. (if f_callbacks ?F ''onenterstate'' \<noteq> None
               then f_callbacks ?F ''onenterstate''
               else f_callbacks ?F ''onstate'') = Some h
             \<longrightarrow> (\<exists>v. h warn_ctx = Returns v)"
    by (simp add: light_def build_fsm_def light_cfg_def quiet_def)
  from enter_resolution [OF a b, of "idle ''yellow''"] show ?thesis
    by (simp add: light_def build_fsm_def light_cfg_def warn_ctx_def)
qed

text \<open>
  C7 as stated makes the general hook a fallback of the specific one and the plain
  \<^verbatim>\<open>on<to>\<close> a fallback of \<^verbatim>\<open>onenterstate\<close>. A firing of \<^verbatim>\<open>warn\<close> calls
  \<^verbatim>\<open>onenteryellow\<close> and \<^verbatim>\<open>onenterstate\<close> when both exist, and \<^verbatim>\<open>onyellow\<close> and
  \<^verbatim>\<open>onenterstate\<close> when both exist.
\<close>

theorem enter_resolution_counterexample:
  "fire (light [''onenteryellow'' \<mapsto> quiet, ''onenterstate'' \<mapsto> quiet]) ''warn'' []
     (idle ''green'')
   = (Returns SUCCEEDED,
      \<lparr> current = ''yellow'', transition = None,
        log = [Called PEnterThis ''onenteryellow'' warn_ctx,
               Called PEnterAny ''onenterstate'' warn_ctx] \<rparr>)
   \<and> fire (light [''onyellow'' \<mapsto> quiet, ''onenterstate'' \<mapsto> quiet]) ''warn'' []
     (idle ''green'')
   = (Returns SUCCEEDED,
      \<lparr> current = ''yellow'', transition = None,
        log = [Called PEnterThis ''onyellow'' warn_ctx,
               Called PEnterAny ''onenterstate'' warn_ctx] \<rparr>)"
  by (simp add: run_defs)

subsection \<open>\<^verbatim>\<open>can\<close> on a name that was never registered\<close>

text \<open>
  C10, as amended. The event name was never registered. With no transition pending,
  \<^verbatim>\<open>can\<close> and \<^verbatim>\<open>cannot\<close> throw when objects inherit nothing under that name; under a
  name that objects do inherit (\<^verbatim>\<open>toString\<close> is one) they do not throw, and \<^verbatim>\<open>can\<close>
  tells whether the inherited value has an own property named like the current state or
  like the wildcard. While a transition is pending \<^verbatim>\<open>can\<close> returns \<^verbatim>\<open>false\<close> and
  \<^verbatim>\<open>cannot\<close> returns \<^verbatim>\<open>true\<close> without reading the map.
\<close>

theorem can_unregistered:
  assumes "f_map F ev = None"
  shows "(transition m = None \<and> map_of (f_inherited F) ev = None
            \<longrightarrow> can F ev m = Throws TypeError \<and> cannot F ev m = Throws TypeError)
       \<and> (transition m = None \<and> map_of (f_inherited F) ev = Some own
            \<longrightarrow> can F ev m = Returns (own (current m) \<or> own WILDCARD)
              \<and> cannot F ev m = Returns (\<not> (own (current m) \<or> own WILDCARD)))
       \<and> (transition m \<noteq> None
            \<longrightarrow> can F ev m = Returns False \<and> cannot F ev m = Returns True)"
  using assms by (auto simp: can_def cannot_def)

text \<open>
  On the light at rest in green: \<^verbatim>\<open>stop\<close> is neither registered nor inherited,
  \<^verbatim>\<open>valueOf\<close> is inherited; then the same light with \<^verbatim>\<open>warn\<close> suspended.
\<close>

theorem can_unregistered_witness:
  "can (light Map.empty) ''stop'' (idle ''green'') = Throws TypeError
   \<and> cannot (light Map.empty) ''stop'' (idle ''green'') = Throws TypeError
   \<and> can (light Map.empty) ''valueOf'' (idle ''green'') = Returns False
   \<and> cannot (light Map.empty) ''valueOf'' (idle ''green'') = Returns True
   \<and> can (light Map.empty) ''stop'' ((idle ''green'')\<lparr> transition := Some warn_ctx \<rparr>)
       = Returns False
   \<and> cannot (light Map.empty) ''stop'' ((idle ''green'')\<lparr> transition := Some warn_ctx \<rparr>)
       = Returns True"
proof -
  have r: "f_map (light Map.empty) ''stop'' = None" "f_map (light Map.empty) ''valueOf'' = None"
    by (simp_all add: run_defs)
  have i: "transition (idle ''green'') = None \<and> map_of (f_inherited (light Map.empty)) ''stop'' = None"
    by (simp add: run_defs)
  have v: "transition (idle ''green'') = None
      \<and> map_of (f_inherited (light Map.empty)) ''valueOf'' = Some function_own"
    by (simp add: light_def build_fsm_def light_cfg_def object_methods_def idle_def)
  have p: "transition ((idle ''green'')\<lparr> transition := Some warn_ctx \<rparr>) \<noteq> None"
    by simp
  have o: "\<not> (function_own (current (idle ''green'')) \<or> function_own WILDCARD)"
    by (simp add: function_own_def idle_def WILDCARD_def)
  from can_unregistered [OF r(1), where m = "idle ''green''"] i
  have one: "can (light Map.empty) ''stop'' (idle ''green'') = Throws TypeError
      \<and> cannot (light Map.empty) ''stop'' (idle ''green'') = Throws TypeError"
    by blast
  from can_unregistered [OF r(2), where m = "idle ''green''" and own = function_own] v
  have "can (light Map.empty) ''valueOf'' (idle ''green'')
        = Returns (function_own (current (idle ''green'')) \<or> function_own WILDCARD)
      \<and> cannot (light Map.empty) ''valueOf'' (idle ''green'')
        = Returns (\<not> (function_own (current (idle ''green'')) \<or> function_own WILDCARD))"
    by blast
  with o have two: "can (light Map.empty) ''valueOf'' (idle ''green'') = Returns False
      \<and> cannot (light Map.empty) ''valueOf'' (idle ''green'') = Returns True"
    by simp
  from can_unregistered [OF r(1), where m = "(idle ''green'')\<lparr> transition := Some warn_ctx \<rparr>"] p
  have three: "can (light Map.empty) ''stop'' ((idle ''green'')\<lparr> transition := Some warn_ctx \<rparr>)
       = Returns False
   \<and> cannot (light Map.empty) ''stop'' ((idle ''green'')\<lparr> transition := Some warn_ctx \<rparr>)
       = Returns True"
    by blast
  from one two three show ?thesis by blast
qed

text \<open>
  C10 as stated fails twice. On a machine that is pending, after \<^verbatim>\<open>warn\<close> has been
  suspended by its leave hook, \<^verbatim>\<open>can('stop')\<close> returns \<^verbatim>\<open>false\<close> although no event
  \<^verbatim>\<open>stop\<close> exists. And on the machine at rest, \<^verbatim>\<open>can('toString')\<close> returns \<^verbatim>\<open>false\<close>:
  \<^verbatim>\<open>map['toString']\<close> is the function every object inherits, which has no own property
  \<^verbatim>\<open>green\<close> or \<^verbatim>\<open>*\<close>.
\<close>

theorem can_unregistered_counterexample:
  "fire (light [''onleavegreen'' \<mapsto> suspend]) ''warn'' [] (idle ''green'')
   = (Returns PENDING,
      \<lparr> current = ''green'', transition = Some warn_ctx,
        log = [Called PLeaveThis ''onleavegreen'' warn_ctx] \<rparr>)
   \<and> f_map (light [''onleavegreen'' \<mapsto> suspend]) ''stop'' = None
   \<and> can (light [''onleavegreen'' \<mapsto> suspend]) ''stop''
       \<lparr> current = ''green'', transition = Some warn_ctx,
         log = [Called PLeaveThis ''onleavegreen'' warn_ctx] \<rparr> = Returns False
   \<and> cannot (light [''onleavegreen'' \<mapsto> suspend]) ''stop''
       \<lparr> current = ''green'', transition = Some warn_ctx,
         log = [Called PLeaveThis ''onleavegreen'' warn_ctx] \<rparr> = Returns True
   \<and> create (light_cfg Map.empty) = Some (Inr (light Map.empty, idle ''green''))
   \<and> f_map (light Map.empty) ''toString'' = None
   \<and> can (light Map.empty) ''toString'' (idle ''green'') = Returns False
   \<and> cannot (light Map.empty) ''toString'' (idle ''green'') = Returns True"
  by (simp add: run_defs)

subsection \<open>What \<^verbatim>\<open>transitions()\<close> lists\<close>

lemma index_agrees_empty: "index_agrees empty_tables"
  by (simp add: index_agrees_def empty_tables_def names_of_def has_entry_def)

lemma index_agrees_step:
  assumes "index_agrees T"
  shows "index_agrees (add_step nm t f T)"
  unfolding index_agrees_def
proof (intro allI)
  fix s nm'
  from assms have old: "(nm' \<in> set (names_of (t_transitions T s))) = has_entry (t_map T) nm' s"
    by (simp add: index_agrees_def)
  show "(nm' \<in> set (names_of (t_transitions (add_step nm t f T) s)))
        = has_entry (t_map (add_step nm t f T)) nm' s"
  proof (cases "s = f")
    case True
    show ?thesis
    proof (cases "nm' = nm")
      case True
      with \<open>s = f\<close> show ?thesis by (simp add: add_step_def names_of_def has_entry_def)
    next
      case False
      with \<open>s = f\<close> old show ?thesis
        by (simp add: add_step_def names_of_def has_entry_def)
    qed
  next
    case False
    with old show ?thesis
      by (auto simp: add_step_def names_of_def has_entry_def split: option.splits)
  qed
qed

lemma index_agrees_loop: "index_agrees T \<Longrightarrow> index_agrees (add_loop nm t fs T)"
  by (induction fs arbitrary: T) (simp_all add: index_agrees_step)

lemma index_agrees_add:
  assumes "index_agrees T"
  shows "index_agrees (add e T)"
proof -
  have "index_agrees (T\<lparr> t_map := (t_map T)(e_name e \<mapsto>
              (case t_map T (e_name e) of Some em \<Rightarrow> em | None \<Rightarrow> Map.empty)) \<rparr>)"
    using assms by (auto simp: index_agrees_def has_entry_def split: option.splits)
  then show ?thesis by (simp add: add_def index_agrees_loop)
qed

lemma index_agrees_events: "index_agrees T \<Longrightarrow> index_agrees (add_events es T)"
  by (induction es arbitrary: T) (simp_all add: index_agrees_add)

lemma index_agrees_build: "index_agrees (build_tables cfg)"
  by (simp add: build_tables_def index_agrees_events index_agrees_add index_agrees_empty
      split: option.splits)

text \<open>
  C9, as amended. For every machine \<^verbatim>\<open>create\<close> builds and every current state: an event
  whose map has an entry for that very state is among the names \<^verbatim>\<open>transitions()\<close>
  returns, and when no transition is pending \<^verbatim>\<open>can\<close> returns \<^verbatim>\<open>true\<close> for every
  name \<^verbatim>\<open>transitions()\<close> returns. Nothing is said about events registered with a wildcard
  \<^verbatim>\<open>from\<close>, nor about a name occurring once only.
\<close>

theorem transitions_lists_entries:
  "(has_entry (f_map (build_fsm cfg)) nm (current m)
      \<longrightarrow> nm \<in> set (names_of (transitions (build_fsm cfg) m)))
   \<and> (transition m = None \<and> nm \<in> set (names_of (transitions (build_fsm cfg) m))
        \<longrightarrow> can (build_fsm cfg) nm m = Returns True)"
proof -
  from index_agrees_build [of cfg]
  have a: "(nm \<in> set (names_of (transitions (build_fsm cfg) m)))
     = has_entry (f_map (build_fsm cfg)) nm (current m)"
    by (simp add: index_agrees_def build_fsm_def transitions_def)
  have "can (build_fsm cfg) nm m = Returns True"
    if "transition m = None" "has_entry (f_map (build_fsm cfg)) nm (current m)"
    using that by (auto simp: can_def has_entry_def split: option.splits)
  with a show ?thesis by blast
qed

theorem transitions_lists_entries_witness:
  "has_entry (f_map (light Map.empty)) ''panic'' ''green''
   \<and> transitions (light Map.empty) (idle ''green'') = Some [''warn'', ''panic'']
   \<and> can (light Map.empty) ''panic'' (idle ''green'') = Returns True"
proof -
  have e: "has_entry (f_map (build_fsm (light_cfg Map.empty))) ''panic''
      (current (idle ''green''))"
    by (simp add: has_entry_def run_defs)
  have t: "transitions (light Map.empty) (idle ''green'') = Some [''warn'', ''panic'']"
    by (simp add: run_defs)
  have i: "transition (idle ''green'') = None" by (simp add: idle_def)
  from transitions_lists_entries [of "light_cfg Map.empty" "''panic''" "idle ''green''"] e i
  have "can (build_fsm (light_cfg Map.empty)) ''panic'' (idle ''green'') = Returns True"
    by blast
  with e t show ?thesis by (simp add: light_def idle_def)
qed

text \<open>
  C9 as stated fails twice on a machine at rest in green. \<^verbatim>\<open>clear\<close> has a wildcard
  \<^verbatim>\<open>from\<close>, so \<^verbatim>\<open>can('clear')\<close> holds, but \<^verbatim>\<open>transitions()\<close> does not list it; and an
  event registered twice from green is listed twice.
\<close>

theorem transitions_counterexample:
  "create (light_cfg Map.empty) = Some (Inr (light Map.empty, idle ''green''))
   \<and> can (light Map.empty) ''clear'' (idle ''green'') = Returns True
   \<and> transitions (light Map.empty) (idle ''green'') = Some [''warn'', ''panic'']
   \<and> create twice_cfg = Some (Inr (build_fsm twice_cfg, idle ''green''))
   \<and> transitions (build_fsm twice_cfg) (idle ''green'') = Some [''warn'', ''warn'']"
  by (simp add: run_defs twice_cfg_def)

subsection \<open>An event without \<^verbatim>\<open>to\<close> and without \<^verbatim>\<open>from\<close>\<close>

text \<open>
  A specification without \<^verbatim>\<open>to\<close> maps each of its source names to itself (line 53);
  without \<^verbatim>\<open>from\<close> as well, the one source name is the wildcard symbol.
\<close>

lemma add_loop_self:
  "(case t_map T nm of Some em \<Rightarrow> em f = Some f | None \<Rightarrow> False) \<or> f \<in> set fs \<Longrightarrow>
   (case t_map (add_loop nm None fs T) nm of Some em \<Rightarrow> em f = Some f | None \<Rightarrow> False)"
proof (induction fs arbitrary: T)
  case Nil
  then show ?case by simp
next
  case (Cons g fs)
  have "(case t_map (add_step nm None g T) nm of Some em \<Rightarrow> em f = Some f | None \<Rightarrow> False)
        \<or> f \<in> set fs"
  proof (cases "f = g")
    case True
    then show ?thesis by (simp add: add_step_def to_or_def)
  next
    case False
    with Cons.prems show ?thesis
      by (auto simp: add_step_def split: option.splits)
  qed
  from Cons.IH [OF this] show ?case by simp
qed

lemma add_without_to:
  assumes "e_to e = None" and "f \<in> set (from_list (e_from e))"
  shows "case t_map (add e T) (e_name e) of Some em \<Rightarrow> em f = Some f | None \<Rightarrow> False"
  using assms add_loop_self [where nm = "e_name e" and f = f and fs = "from_list (e_from e)"]
  by (simp add: add_def)

lemma add_without_to_wildcard:
  assumes "e_to e = None" and "e_from e = FromOmitted"
  shows "case t_map (add e T) (e_name e) of
           Some em \<Rightarrow> em WILDCARD = Some WILDCARD | None \<Rightarrow> False"
  using assms by (intro add_without_to) simp_all

text \<open>
  C3. The event \<^verbatim>\<open>noop\<close> is registered with neither \<^verbatim>\<open>from\<close> nor \<^verbatim>\<open>to\<close>. Line 53
  stores the wildcard symbol as its destination, and firing it on green moves the machine
  to the state \<^verbatim>\<open>'*'\<close> and returns \<^verbatim>\<open>SUCCEEDED\<close>, where C3 asks for \<^verbatim>\<open>NOTRANSITION\<close>
  and green. Registered from green alone, the same event does what C3 says.
\<close>

theorem wildcard_noop_moves:
  "create (noop_cfg FromOmitted)
     = Some (Inr (build_fsm (noop_cfg FromOmitted), idle ''green''))
   \<and> f_map (build_fsm (noop_cfg FromOmitted)) ''noop'' = Some [''*'' \<mapsto> ''*'']
   \<and> fire (build_fsm (noop_cfg FromOmitted)) ''noop'' [] (idle ''green'')
     = (Returns SUCCEEDED, \<lparr> current = ''*'', transition = None, log = [] \<rparr>)
   \<and> fire (build_fsm (noop_cfg (FromOne ''green''))) ''noop'' [] (idle ''green'')
     = (Returns NOTRANSITION, \<lparr> current = ''green'', transition = None, log = [] \<rparr>)"
  by (simp add: run_defs noop_cfg_def)

subsection \<open>The initial transition\<close>









text \<open>
  Where the model declines: a callback named like the initial event would be called in
  its place on line 84, an event named \<^verbatim>\<open>transition\<close> would fill the pending slot on line
  67, an event named \<^verbatim>\<open>ongreen\<close> would be found as the enter hook of green on line 112.
\<close>

lemma create_declines:
  "create (light_cfg [''startup'' \<mapsto> quiet]) = None
   \<and> create (light_with ''transition'') = None
   \<and> create (light_with ''ongreen'') = None
   \<and> create (light_with ''stop'')
       = Some (Inr (build_fsm (light_with ''stop''), idle ''green''))"
  by (simp add: run_defs light_with_def)




subsection \<open>A suspended transition\<close>


lemma hook_at_eq_None [simp]: "(hook_at F k = None) = (\<not> present F k)"
  by (simp add: hook_at_def present_def split: option.splits)

lemma orelse_eq_None [simp]: "(orelse a b = None) = (a = None \<and> b = None)"
  by (simp add: orelse_def split: option.splits)









end
